theory Spec2Isabelle
  imports Main
begin

section \<open>Python strings and the characters the code inspects\<close>

text \<open>
  A Python \<open>str\<close> is a sequence of Unicode code points; \<open>ord\<close> and \<open>chr\<close> convert
  between a one-character string and its code point. A string is modelled as the list
  of its code points, so \<open>ord\<close> and \<open>chr\<close> are the identity. The string
  \<open>binary_message\<close> of the source only ever holds the characters \<open>'0'\<close> and
  \<open>'1'\<close> (it is built by \<open>format(..., '08b')\<close> and by \<open>+= '0'\<close>, \<open>+= '1'\<close>); it is
  modelled as a list of booleans, \<open>True\<close> for \<open>'1'\<close>. On such a string
  \<open>int(byte, 2)\<close> of eight characters never raises and is below 256, so \<open>chr\<close> never
  raises either, and the \<open>except ValueError\<close> branch of the decoding loops is never taken.
\<close>

type_synonym pystr = "nat list"

definition py_str :: "string \<Rightarrow> pystr" where
  "py_str s = map of_char s"

definition SPACE :: nat where "SPACE = 32"
definition TAB :: nat where "TAB = 9"

section \<open>The bit serialization shared by the three methods\<close>

text \<open>\<open>format(n, 'b')\<close>: the binary digits of \<open>n\<close>, most significant first.\<close>

fun bin_digits :: "nat \<Rightarrow> bool list" where
  "bin_digits n = (if n < 2 then [n = 1] else bin_digits (n div 2) @ [odd n])"

declare bin_digits.simps [simp del]

text \<open>\<open>format(n, '08b')\<close>: padded with zeros on the left to a width of at least 8.\<close>

definition format_08b :: "nat \<Rightarrow> bool list" where
  "format_08b n = replicate (8 - length (bin_digits n)) False @ bin_digits n"

text \<open>\<open>int(byte, 2)\<close> on a string of binary digits.\<close>

definition int2 :: "bool list \<Rightarrow> nat" where
  "int2 byte = foldl (\<lambda>a b. 2 * a + (if b then 1 else 0)) 0 byte"

text \<open>
  \<open>''.join(format(ord(char), '08b') for char in secret_message) + '00000000'\<close>,
  the first two statements of each of the three embedding functions.
\<close>

definition end_marker :: "bool list" where
  "end_marker = replicate 8 False"

definition message_to_binary :: "pystr \<Rightarrow> bool list" where
  "message_to_binary secret_message = concat (map format_08b secret_message) @ end_marker"

text \<open>
  The loop that ends each of the three extraction functions:
  \<^verbatim>\<open>
  for i in range(0, len(binary_message), 8):
      if i + 8 <= len(binary_message):
          byte = binary_message[i:i+8]
          if byte == '00000000': break
          message += chr(int(byte, 2))
  \<close>
\<close>

function decode_loop :: "bool list \<Rightarrow> nat \<Rightarrow> pystr \<Rightarrow> pystr" where
  "decode_loop binary_message i message =
     (if i < length binary_message then
        (if i + 8 \<le> length binary_message then
           (let byte = take 8 (drop i binary_message) in
            if byte = end_marker then message
            else decode_loop binary_message (i + 8) (message @ [int2 byte]))
         else decode_loop binary_message (i + 8) message)
      else message)"
  by pat_completeness auto
termination
  by (relation "measure (\<lambda>(binary_message, i, message). length binary_message - i)") auto

declare decode_loop.simps [simp del]

definition binary_to_text :: "bool list \<Rightarrow> pystr" where
  "binary_to_text binary_message = decode_loop binary_message 0 []"

text \<open>
  The decoder as the specification words it: the complete 8-bit groups of the bit
  string, in order (a trailing group of fewer than 8 bits is not among them).
\<close>

definition spec_groups8 :: "bool list \<Rightarrow> bool list list" where
  "spec_groups8 bits = map (\<lambda>k. take 8 (drop (8 * k) bits)) [0..<length bits div 8]"

section \<open>Splitting on whitespace\<close>

text \<open>
  \<open>str.split()\<close> without arguments cuts at runs of whitespace and returns the
  non-empty pieces. Its whitespace characters are those of \<open>str.isspace\<close>: U+0009 to
  U+000D, U+001C to U+0020, U+0085, U+00A0, U+1680, U+2000 to U+200A, U+2028, U+2029,
  U+202F, U+205F and U+3000.
\<close>

definition py_isspace :: "nat \<Rightarrow> bool" where
  "py_isspace c \<longleftrightarrow>
     (9 \<le> c \<and> c \<le> 13) \<or> (28 \<le> c \<and> c \<le> 32) \<or> c = 133 \<or> c = 160 \<or> c = 5760 \<or>
     (8192 \<le> c \<and> c \<le> 8202) \<or> c = 8232 \<or> c = 8233 \<or> c = 8239 \<or> c = 8287 \<or> c = 12288"

fun split_loop :: "pystr \<Rightarrow> pystr \<Rightarrow> pystr list" where
  "split_loop [] word = (if word = [] then [] else [word])"
| "split_loop (c # cs) word =
     (if py_isspace c then (if word = [] then split_loop cs [] else word # split_loop cs [])
      else split_loop cs (word @ [c]))"

definition py_split :: "pystr \<Rightarrow> pystr list" where
  "py_split text = split_loop text []"

section \<open>Errors\<close>

text \<open>
  The exceptions the modelled functions can raise: \<open>ValueError\<close> with its message (the
  dispatchers raise \<open>ValueError(f"Unsupported method: {method}")\<close>),
  \<open>ZeroDivisionError\<close> from \<open>%\<close>, and \<open>IndexError\<close> from list indexing.
\<close>

datatype error = ValueError pystr | ZeroDivisionError | IndexError

section \<open>The whitespace method\<close>

text \<open>
  \<^verbatim>\<open>
  if len(words) - 1 < len(binary_message):
      while len(words) - 1 < len(binary_message):
          words.append(words[len(words) % len(cover_text.split())])
  \<close>
  The guard and the loop test are the same comparison, on Python integers
  (\<open>len(words) - 1\<close> is \<open>-1\<close> for an empty list). \<open>cover_words\<close> is
  \<open>cover_text.split()\<close>, computed anew at each turn; \<open>n\<close> is \<open>len(binary_message)\<close>.
\<close>

function extend_words :: "pystr list \<Rightarrow> pystr list \<Rightarrow> nat \<Rightarrow> error + pystr list" where
  "extend_words cover_words words n =
     (if int (length words) - 1 < int n then
        (if length cover_words = 0 then Inl ZeroDivisionError
         else (let k = length words mod length cover_words in
               if k < length words then extend_words cover_words (words @ [words ! k]) n
               else Inl IndexError))
      else Inr words)"
  by pat_completeness auto
termination
  by (relation "measure (\<lambda>(cover_words, words, n). Suc n - length words)") auto

declare extend_words.simps [simp del]

text \<open>
  \<^verbatim>\<open>
  for i in range(len(words)):
      stego_words.append(words[i])
      if i < len(words) - 1:
          if i < len(binary_message):
              space = '\t' if binary_message[i] == '1' else ' '
              stego_words.append(space)
          else:
              stego_words.append(' ')
  return ''.join(stego_words)
  \<close>
\<close>

definition separator :: "bool list \<Rightarrow> nat \<Rightarrow> nat" where
  "separator binary_message i =
     (if i < length binary_message then (if binary_message ! i then TAB else SPACE) else SPACE)"

definition join_whitespace :: "pystr list \<Rightarrow> bool list \<Rightarrow> pystr" where
  "join_whitespace words binary_message =
     concat (map (\<lambda>i. words ! i @
                        (if int i < int (length words) - 1 then [separator binary_message i]
                         else []))
                 [0..<length words])"

definition embed_whitespace :: "pystr \<Rightarrow> pystr \<Rightarrow> error + pystr" where
  "embed_whitespace cover_text secret_message =
     (let binary_message = message_to_binary secret_message;
          words = py_split cover_text
      in case extend_words (py_split cover_text) words (length binary_message) of
           Inl e \<Rightarrow> Inl e
         | Inr words' \<Rightarrow> Inr (join_whitespace words' binary_message))"

text \<open>
  The scanning loop of \<open>_extract_whitespace\<close>, with its two variables \<open>parts\<close> and
  \<open>current_part\<close>; at the end of the text a pending word is appended.
\<close>

fun scan_parts :: "pystr \<Rightarrow> pystr list \<Rightarrow> pystr \<Rightarrow> pystr list" where
  "scan_parts [] parts current_part =
     (if current_part \<noteq> [] then parts @ [current_part] else parts)"
| "scan_parts (c # cs) parts current_part =
     (if c = SPACE \<or> c = TAB then
        scan_parts cs ((if current_part \<noteq> [] then parts @ [current_part] else parts) @ [[c]]) []
      else scan_parts cs parts (current_part @ [c]))"

definition parts_to_binary :: "pystr list \<Rightarrow> bool list" where
  "parts_to_binary parts =
     concat (map (\<lambda>part. if part = [TAB] then [True]
                          else if part = [SPACE] then [False] else []) parts)"

text \<open>The value of \<open>binary_message\<close> when the decoding loop starts.\<close>

definition whitespace_bits :: "pystr \<Rightarrow> bool list" where
  "whitespace_bits stego_text = parts_to_binary (scan_parts stego_text [] [])"

definition extract_whitespace :: "pystr \<Rightarrow> pystr" where
  "extract_whitespace stego_text = binary_to_text (whitespace_bits stego_text)"

text \<open>
  Cutting a text at every space and every tab character (the fields between them), the
  reading of a stego text that claim C10 speaks of.
\<close>

fun fields_loop :: "pystr \<Rightarrow> pystr \<Rightarrow> pystr list" where
  "fields_loop [] field = [field]"
| "fields_loop (c # cs) field =
     (if c = SPACE \<or> c = TAB then field # fields_loop cs [] else fields_loop cs (field @ [c]))"

definition split_space_tab :: "pystr \<Rightarrow> pystr list" where
  "split_space_tab text = fields_loop text []"

section \<open>Character classes and case mappings\<close>

text \<open>
  \<open>str.isalpha\<close>, \<open>str.isupper\<close>, \<open>str.lower\<close> and \<open>str.upper\<close> read the Unicode
  character database of the interpreter, which is not part of the repository. The
  model takes it as a parameter: \<open>str_isalpha\<close> and \<open>str_isupper\<close> are the two
  predicates on one character, \<open>str_lower\<close> and \<open>str_upper\<close> the two mappings on
  strings (a case mapping can change the length of a string and can depend on the
  neighbouring characters).
\<close>

record ucd =
  str_isalpha :: "nat \<Rightarrow> bool"
  str_isupper :: "nat \<Rightarrow> bool"
  str_lower :: "pystr \<Rightarrow> pystr"
  str_upper :: "pystr \<Rightarrow> pystr"

text \<open>
  \<open>str.capitalize()\<close> on a string of ASCII characters: the first character in upper
  case, the rest in lower case. The code capitalizes only alternatives of the synonym
  table, which are ASCII.
\<close>

definition py_capitalize :: "pystr \<Rightarrow> pystr" where
  "py_capitalize s =
     (case s of [] \<Rightarrow> []
      | c # cs \<Rightarrow> (if 97 \<le> c \<and> c \<le> 122 then c - 32 else c) #
                  map (\<lambda>d. if 65 \<le> d \<and> d \<le> 90 then d + 32 else d) cs)"

text \<open>\<open>s.strip(chars)\<close>: the characters of \<open>chars\<close> removed from both ends.\<close>

definition py_strip :: "pystr \<Rightarrow> pystr \<Rightarrow> pystr" where
  "py_strip chars s =
     rev (dropWhile (\<lambda>c. c \<in> set chars) (rev (dropWhile (\<lambda>c. c \<in> set chars) s)))"

text \<open>\<open>' '.join(words)\<close>.\<close>

fun join_space :: "pystr list \<Rightarrow> pystr" where
  "join_space [] = []"
| "join_space [w] = w"
| "join_space (w # ws) = w @ SPACE # join_space ws"

section \<open>The synonym method\<close>

text \<open>The characters \<open>.,!?;:"()[]{}\<close> that both functions strip from a word.\<close>

definition punctuation_chars :: pystr where
  "punctuation_chars = py_str ''.,!?;:'' @ [34] @ py_str ''()[]{}''"

text \<open>
  The dictionary \<open>synonyms\<close>, the same literal in \<open>_embed_synonym\<close> and in
  \<open>_extract_synonym\<close>, as an association list in the order of the literal (a Python
  \<open>dict\<close> iterates in insertion order).
\<close>

definition synonyms :: "(pystr \<times> pystr list) list" where
  "synonyms =
     [(py_str ''the'', map py_str [''the'', ''this'', ''that'', ''these'', ''those'']),
      (py_str ''and'', map py_str [''and'', ''also'', ''plus'', ''furthermore'', ''moreover'']),
      (py_str ''or'', map py_str [''or'', ''either'', ''else'', ''alternatively'', ''otherwise'']),
      (py_str ''but'', map py_str [''but'', ''however'', ''yet'', ''nevertheless'', ''nonetheless'']),
      (py_str ''is'', map py_str [''is'', ''exists'', ''appears'', ''seems'', ''represents'']),
      (py_str ''are'', map py_str [''are'', ''exist'', ''seem'', ''appear'', ''represent'']),
      (py_str ''was'', map py_str [''was'', ''were'', ''existed'', ''occurred'', ''happened'']),
      (py_str ''were'', map py_str [''were'', ''was'', ''seemed'', ''appeared'', ''occurred'']),
      (py_str ''have'', map py_str [''have'', ''possess'', ''own'', ''contain'', ''hold'']),
      (py_str ''has'', map py_str [''has'', ''possesses'', ''owns'', ''contains'', ''holds'']),
      (py_str ''had'', map py_str [''had'', ''possessed'', ''owned'', ''contained'', ''held'']),
      (py_str ''do'', map py_str [''do'', ''perform'', ''execute'', ''accomplish'', ''achieve'']),
      (py_str ''does'', map py_str [''does'', ''performs'', ''executes'', ''accomplishes'', ''achieves'']),
      (py_str ''did'', map py_str [''did'', ''performed'', ''executed'', ''accomplished'', ''achieved'']),
      (py_str ''will'', map py_str [''will'', ''shall'', ''going to'', ''intend to'', ''plan to'']),
      (py_str ''would'', map py_str [''would'', ''should'', ''going to'', ''intend to'', ''plan to'']),
      (py_str ''could'', map py_str [''could'', ''might'', ''possibly'', ''potentially'', ''perhaps'']),
      (py_str ''should'', map py_str [''should'', ''ought to'', ''must'', ''need to'', ''have to'']),
      (py_str ''may'', map py_str [''may'', ''might'', ''possibly'', ''potentially'', ''perhaps'']),
      (py_str ''can'', map py_str [''can'', ''could'', ''able to'', ''capable of'', ''permitted to'']),
      (py_str ''be'', map py_str [''be'', ''exist'', ''become'', ''appear'', ''seem''])]"

text \<open>\<open>word.lower().strip('.,!?;:"()[]{}')\<close>.\<close>

definition clean_synonym_word :: "ucd \<Rightarrow> pystr \<Rightarrow> pystr" where
  "clean_synonym_word U word = py_strip punctuation_chars (str_lower U word)"

text \<open>
  The first loop of \<open>_embed_synonym\<close>, over the words of the cover text, with its
  variables \<open>bit_index\<close> and \<open>stego_words\<close>.
\<close>

fun synonym_loop ::
  "ucd \<Rightarrow> pystr list \<Rightarrow> bool list \<Rightarrow> nat \<Rightarrow> pystr list \<Rightarrow> pystr list \<times> nat" where
  "synonym_loop U [] binary_message bit_index stego_words = (stego_words, bit_index)"
| "synonym_loop U (word # words) binary_message bit_index stego_words =
     (let clean_word = clean_synonym_word U word;
          punctuation = filter (\<lambda>c. c \<in> set punctuation_chars) word;
          is_capitalized = (case word of [] \<Rightarrow> False | c # cs \<Rightarrow> str_isupper U c)
      in case map_of synonyms clean_word of
           Some options \<Rightarrow>
             if bit_index < length binary_message then
               (let b = binary_message ! bit_index;
                    synonym = (if b then (if length options > 1 then options ! 1 else options ! 0)
                               else options ! 0);
                    synonym' = (if is_capitalized then py_capitalize synonym else synonym)
                in synonym_loop U words binary_message (bit_index + 1)
                     (stego_words @ [synonym' @ punctuation]))
             else synonym_loop U words binary_message bit_index (stego_words @ [word])
         | None \<Rightarrow> synonym_loop U words binary_message bit_index (stego_words @ [word]))"

text \<open>
  The second loop, \<open>while bit_index < len(binary_message)\<close>, appends one dummy word for
  each bit that is left; \<open>one\<close> and \<open>zero\<close> are the two dummy words
  (\<open>'Furthermore'\<close> and \<open>'and'\<close> here, \<open>'Data'\<close> and \<open>'data'\<close> in the binary method).
\<close>

function dummy_loop :: "pystr \<Rightarrow> pystr \<Rightarrow> bool list \<Rightarrow> nat \<Rightarrow> pystr list \<Rightarrow> pystr list" where
  "dummy_loop one zero binary_message bit_index stego_words =
     (if bit_index < length binary_message then
        dummy_loop one zero binary_message (bit_index + 1)
          (stego_words @ [if binary_message ! bit_index then one else zero])
      else stego_words)"
  by pat_completeness auto
termination
  by (relation "measure (\<lambda>(one, zero, binary_message, bit_index, stego_words).
                     length binary_message - bit_index)") auto

declare dummy_loop.simps [simp del]

definition embed_synonym :: "ucd \<Rightarrow> pystr \<Rightarrow> pystr \<Rightarrow> pystr" where
  "embed_synonym U cover_text secret_message =
     (let binary_message = message_to_binary secret_message;
          words = py_split cover_text;
          (stego_words, bit_index) = synonym_loop U words binary_message 0 []
      in join_space (dummy_loop (py_str ''Furthermore'') (py_str ''and'')
                       binary_message bit_index stego_words))"

text \<open>
  The inner loop of \<open>_extract_synonym\<close> over \<open>synonyms.items()\<close>: the first entry
  whose first or second alternative is the word decides the bit.
\<close>

fun find_synonym_bit :: "(pystr \<times> pystr list) list \<Rightarrow> pystr \<Rightarrow> bool option" where
  "find_synonym_bit [] clean_word = None"
| "find_synonym_bit ((base_word, options) # items) clean_word =
     (if clean_word = options ! 0 then Some False
      else if length options > 1 \<and> clean_word = options ! 1 then Some True
      else find_synonym_bit items clean_word)"

text \<open>What the body of the loop over the words adds to \<open>binary_message\<close>.\<close>

definition synonym_word_bits :: "ucd \<Rightarrow> pystr \<Rightarrow> bool list" where
  "synonym_word_bits U word =
     (let clean_word = clean_synonym_word U word
      in case find_synonym_bit synonyms clean_word of
           Some b \<Rightarrow> [b]
         | None \<Rightarrow> (if clean_word = py_str ''furthermore'' then [True]
                     else if clean_word = py_str ''and'' then [False]
                     else []))"

definition synonym_bits :: "ucd \<Rightarrow> pystr \<Rightarrow> bool list" where
  "synonym_bits U stego_text = concat (map (synonym_word_bits U) (py_split stego_text))"

definition extract_synonym :: "ucd \<Rightarrow> pystr \<Rightarrow> pystr" where
  "extract_synonym U stego_text = binary_to_text (synonym_bits U stego_text)"

section \<open>The capitalization method (\<open>"binary"\<close>)\<close>

text \<open>The body of the first loop of \<open>_embed_binary\<close> for a word that takes a bit.\<close>

definition binary_word :: "ucd \<Rightarrow> bool \<Rightarrow> pystr \<Rightarrow> pystr" where
  "binary_word U b word =
     (let clean_word = filter (str_isalpha U) word;
          punctuation = filter (\<lambda>c. \<not> str_isalpha U c) word;
          processed_word =
            (if b then
               (if clean_word \<noteq> [] then
                  (if length clean_word > 1
                   then str_upper U [clean_word ! 0] @ str_lower U (drop 1 clean_word)
                   else str_upper U clean_word)
                else clean_word)
             else str_lower U clean_word)
      in processed_word @ punctuation)"

fun binary_loop ::
  "ucd \<Rightarrow> pystr list \<Rightarrow> bool list \<Rightarrow> nat \<Rightarrow> pystr list \<Rightarrow> pystr list \<times> nat" where
  "binary_loop U [] binary_message bit_index stego_words = (stego_words, bit_index)"
| "binary_loop U (word # words) binary_message bit_index stego_words =
     (if bit_index < length binary_message then
        binary_loop U words binary_message (bit_index + 1)
          (stego_words @ [binary_word U (binary_message ! bit_index) word])
      else binary_loop U words binary_message bit_index (stego_words @ [word]))"

definition embed_binary :: "ucd \<Rightarrow> pystr \<Rightarrow> pystr \<Rightarrow> pystr" where
  "embed_binary U cover_text secret_message =
     (let binary_message = message_to_binary secret_message;
          words = py_split cover_text;
          (stego_words, bit_index) = binary_loop U words binary_message 0 []
      in join_space (dummy_loop (py_str ''Data'') (py_str ''data'')
                       binary_message bit_index stego_words))"

text \<open>\<open>clean_word and clean_word[0].isupper()\<close>.\<close>

definition binary_word_bit :: "ucd \<Rightarrow> pystr \<Rightarrow> bool" where
  "binary_word_bit U word =
     (let clean_word = filter (str_isalpha U) word
      in clean_word \<noteq> [] \<and> str_isupper U (clean_word ! 0))"

definition binary_bits :: "ucd \<Rightarrow> pystr \<Rightarrow> bool list" where
  "binary_bits U stego_text = map (binary_word_bit U) (py_split stego_text)"

definition extract_binary :: "ucd \<Rightarrow> pystr \<Rightarrow> pystr" where
  "extract_binary U stego_text = binary_to_text (binary_bits U stego_text)"

section \<open>The two entry points\<close>

definition embed_message :: "ucd \<Rightarrow> pystr \<Rightarrow> pystr \<Rightarrow> pystr \<Rightarrow> error + pystr" where
  "embed_message U cover_text secret_message method =
     (if method = py_str ''whitespace'' then embed_whitespace cover_text secret_message
      else if method = py_str ''synonym'' then Inr (embed_synonym U cover_text secret_message)
      else if method = py_str ''binary'' then Inr (embed_binary U cover_text secret_message)
      else Inl (ValueError (py_str ''Unsupported method: '' @ method)))"

definition extract_message :: "ucd \<Rightarrow> pystr \<Rightarrow> pystr \<Rightarrow> error + pystr" where
  "extract_message U stego_text method =
     (if method = py_str ''whitespace'' then Inr (extract_whitespace stego_text)
      else if method = py_str ''synonym'' then Inr (extract_synonym U stego_text)
      else if method = py_str ''binary'' then Inr (extract_binary U stego_text)
      else Inl (ValueError (py_str ''Unsupported method: '' @ method)))"

section \<open>The character database below U+0100\<close>

text \<open>
  The values of the four functions on the code points below 256 (one byte per
  character, as the specification assumes), read off the Unicode character database;
  the case mappings leave that range at three places: the upper case of U+00B5 is
  U+039C, the upper case of U+00FF is U+0178, and the upper case of U+00DF is the two
  characters \<open>SS\<close>. The table also holds U+0178, U+039C and U+03BC (the lower case of
  U+039C), and says nothing true about any other code point: it stands for the
  interpreter's database only where \<open>agrees_below_256\<close> says so.
\<close>

definition latin1_isalpha :: "nat \<Rightarrow> bool" where
  "latin1_isalpha c \<longleftrightarrow>
     (65 \<le> c \<and> c \<le> 90) \<or> (97 \<le> c \<and> c \<le> 122) \<or> c = 170 \<or> c = 181 \<or> c = 186 \<or>
     (192 \<le> c \<and> c \<le> 214) \<or> (216 \<le> c \<and> c \<le> 246) \<or> (248 \<le> c \<and> c \<le> 255) \<or>
     c = 376 \<or> c = 924 \<or> c = 956"

definition latin1_isupper :: "nat \<Rightarrow> bool" where
  "latin1_isupper c \<longleftrightarrow>
     (65 \<le> c \<and> c \<le> 90) \<or> (192 \<le> c \<and> c \<le> 214) \<or> (216 \<le> c \<and> c \<le> 222) \<or>
     c = 376 \<or> c = 924"

definition latin1_lower_char :: "nat \<Rightarrow> pystr" where
  "latin1_lower_char c =
     (if (65 \<le> c \<and> c \<le> 90) \<or> (192 \<le> c \<and> c \<le> 214) \<or> (216 \<le> c \<and> c \<le> 222) then [c + 32]
      else if c = 376 then [255]
      else if c = 924 then [956]
      else [c])"

definition latin1_upper_char :: "nat \<Rightarrow> pystr" where
  "latin1_upper_char c =
     (if (97 \<le> c \<and> c \<le> 122) \<or> (224 \<le> c \<and> c \<le> 246) \<or> (248 \<le> c \<and> c \<le> 254) then [c - 32]
      else if c = 181 then [924]
      else if c = 223 then [83, 83]
      else if c = 255 then [376]
      else if c = 956 then [924]
      else [c])"

definition latin1 :: ucd where
  "latin1 = \<lparr>str_isalpha = latin1_isalpha, str_isupper = latin1_isupper,
             str_lower = (\<lambda>s. concat (map latin1_lower_char s)),
             str_upper = (\<lambda>s. concat (map latin1_upper_char s))\<rparr>"

text \<open>
  A character database that has the values of the table wherever the table is meant:
  the two predicates on the code points below 256 and on U+0178 and U+039C, the two
  mappings on the strings of code points below 256.
\<close>

definition agrees_below_256 :: "ucd \<Rightarrow> bool" where
  "agrees_below_256 U \<longleftrightarrow>
     (\<forall>c. c < 256 \<or> c = 376 \<or> c = 924 \<longrightarrow>
          str_isalpha U c = latin1_isalpha c \<and> str_isupper U c = latin1_isupper c) \<and>
     (\<forall>s. (\<forall>c \<in> set s. c < 256) \<longrightarrow>
          str_lower U s = str_lower latin1 s \<and> str_upper U s = str_upper latin1 s)"

section \<open>Auxiliary notions for the proofs\<close>

text \<open>A word as \<open>split()\<close> returns it: not empty and free of whitespace.\<close>

definition plain_word :: "pystr \<Rightarrow> bool" where
  "plain_word w \<longleftrightarrow> w \<noteq> [] \<and> (\<forall>c \<in> set w. \<not> py_isspace c)"

text \<open>The text that the joining loop of \<open>_embed_whitespace\<close> builds from position \<open>k\<close> on.\<close>

definition join_from :: "pystr list \<Rightarrow> bool list \<Rightarrow> nat \<Rightarrow> pystr" where
  "join_from words bm k =
     concat (map (\<lambda>i. words ! i @
                        (if int i < int (length words) - 1 then [separator bm i] else []))
                 [k..<length words])"

text \<open>
  A word that holds a letter and whose first letter is not one of the two letters below
  U+0100 without an upper case, U+00AA and U+00BA (the ordinal indicators).
\<close>

definition cased_initial :: "pystr \<Rightarrow> bool" where
  "cased_initial word =
     (case filter latin1_isalpha word of [] \<Rightarrow> False | c # cs \<Rightarrow> c \<noteq> 170 \<and> c \<noteq> 186)"

section \<open>Properties of the bit serialization\<close>

lemma length_bin_digits: "n < 2 ^ k \<Longrightarrow> 0 < k \<Longrightarrow> length (bin_digits n) \<le> k"
proof (induction n arbitrary: k rule: bin_digits.induct)
  case (1 n)
  show ?case
  proof (cases "n < 2")
    case True
    then show ?thesis using 1 by (simp add: bin_digits.simps[of n])
  next
    case False
    then obtain k' where k: "k = Suc k'" using 1 by (cases k) auto
    with False 1 have "k' > 0" by (cases k') auto
    moreover have "n div 2 < 2 ^ k'" using 1(2) k by auto
    ultimately have "length (bin_digits (n div 2)) \<le> k'" using 1(1)[OF False] by simp
    then show ?thesis using False k by (simp add: bin_digits.simps[of n])
  qed
qed

lemma int2_append: "int2 (xs @ [b]) = 2 * int2 xs + (if b then 1 else 0)"
  by (simp add: int2_def)

lemma int2_bin_digits: "int2 (bin_digits n) = n"
proof (induction n rule: bin_digits.induct)
  case (1 n)
  show ?case
  proof (cases "n < 2")
    case True
    then show ?thesis by (auto simp add: bin_digits.simps[of n] int2_def)
  next
    case False
    then show ?thesis using 1 by (simp add: bin_digits.simps[of n] int2_append)
  qed
qed

lemma int2_replicate_False: "int2 (replicate k False @ xs) = int2 xs"
  by (induction k) (simp_all add: int2_def)

lemma int2_format_08b: "int2 (format_08b n) = n"
  by (simp add: format_08b_def int2_replicate_False int2_bin_digits)

lemma length_format_08b: "n < 256 \<Longrightarrow> length (format_08b n) = 8"
  using length_bin_digits[of n 8] by (simp add: format_08b_def)

lemma int2_end_marker: "int2 end_marker = 0"
  by (simp add: end_marker_def int2_def eval_nat_numeral)

lemma format_08b_0: "format_08b 0 = end_marker"
  by (simp add: format_08b_def end_marker_def bin_digits.simps[of 0] eval_nat_numeral)

lemma format_08b_eq_end_marker: "format_08b n = end_marker \<longleftrightarrow> n = 0"
  using int2_format_08b[of n] int2_end_marker format_08b_0 by auto

lemma groups8_short: "length bits < 8 \<Longrightarrow> spec_groups8 bits = []"
  by (simp add: spec_groups8_def)

lemma groups8_step:
  assumes "8 \<le> length bits"
  shows "spec_groups8 bits = take 8 bits # spec_groups8 (drop 8 bits)"
proof -
  have d: "length bits div 8 = Suc ((length bits - 8) div 8)"
    using assms by (simp add: le_div_geq)
  have "[0..<Suc ((length bits - 8) div 8)] = 0 # map Suc [0..<(length bits - 8) div 8]"
    by (simp add: upt_conv_Cons map_Suc_upt del: upt_Suc)
  then show ?thesis
    by (simp add: spec_groups8_def d o_def add.commute del: upt_Suc)
qed

lemma decode_loop_groups:
  "decode_loop bits i message =
     message @ map int2 (takeWhile (\<lambda>g. g \<noteq> end_marker) (spec_groups8 (drop i bits)))"
proof (induction bits i message rule: decode_loop.induct)
  case (1 bits i message)
  show ?case
  proof (cases "i + 8 \<le> length bits")
    case True
    then have g: "spec_groups8 (drop i bits)
                    = take 8 (drop i bits) # spec_groups8 (drop (i + 8) bits)"
      by (simp add: groups8_step add.commute)
    show ?thesis
    proof (cases "take 8 (drop i bits) = end_marker")
      case True
      with \<open>i + 8 \<le> length bits\<close> g show ?thesis
        by (simp add: decode_loop.simps[of bits i])
    next
      case False
      with \<open>i + 8 \<le> length bits\<close> g 1(1)[OF _ True refl False] show ?thesis
        by (simp add: decode_loop.simps[of bits i])
    qed
  next
    case False
    then have s: "spec_groups8 (drop i bits) = []" by (simp add: groups8_short)
    have s': "spec_groups8 (drop (i + 8) bits) = []" using False by (simp add: groups8_short)
    show ?thesis
    proof (cases "i < length bits")
      case True
      with False s s' 1(2)[OF True False] show ?thesis
        by (simp add: decode_loop.simps[of bits i])
    next
      case False
      with s show ?thesis by (simp add: decode_loop.simps[of bits i])
    qed
  qed
qed

lemma binary_to_text_groups:
  "binary_to_text bits = map int2 (takeWhile (\<lambda>g. g \<noteq> end_marker) (spec_groups8 bits))"
  by (simp add: binary_to_text_def decode_loop_groups)

lemma groups8_take: "spec_groups8 (take (8 * (length bits div 8)) bits) = spec_groups8 bits"
proof -
  have "8 * (length bits div 8) \<le> length bits" by simp
  then have l: "length (take (8 * (length bits div 8)) bits) div 8 = length bits div 8"
    by (simp add: min_def)
  have "\<And>k. k < length bits div 8 \<Longrightarrow>
          take 8 (drop (8 * k) (take (8 * (length bits div 8)) bits)) = take 8 (drop (8 * k) bits)"
  proof -
    fix k assume "k < length bits div 8"
    then have "8 * k + 8 \<le> 8 * (length bits div 8)" by simp
    then show "take 8 (drop (8 * k) (take (8 * (length bits div 8)) bits))
                 = take 8 (drop (8 * k) bits)"
      by (simp add: drop_take min_def)
  qed
  then show ?thesis unfolding spec_groups8_def l by simp
qed

lemma groups8_message:
  "\<forall>c \<in> set msg. c < 256 \<Longrightarrow>
     spec_groups8 (concat (map format_08b msg) @ rest) = map format_08b msg @ spec_groups8 rest"
proof (induction msg)
  case Nil
  then show ?case by simp
next
  case (Cons c msg)
  then have l: "length (format_08b c) = 8" by (simp add: length_format_08b)
  with Cons show ?case by (simp add: groups8_step)
qed

lemma takeWhile_format:
  "takeWhile (\<lambda>g. g \<noteq> end_marker) (map format_08b msg @ end_marker # gs)
     = map format_08b (takeWhile (\<lambda>c. c \<noteq> 0) msg)"
  by (induction msg) (simp_all add: format_08b_eq_end_marker)

lemma binary_to_text_message:
  assumes "\<forall>c \<in> set msg. c < 256"
  shows "binary_to_text (message_to_binary msg @ rest) = takeWhile (\<lambda>c. c \<noteq> 0) msg"
proof -
  have "spec_groups8 (message_to_binary msg @ rest)
          = map format_08b msg @ spec_groups8 (end_marker @ rest)"
    using groups8_message[OF assms] by (simp add: message_to_binary_def)
  also have "spec_groups8 (end_marker @ rest) = end_marker # spec_groups8 rest"
    by (simp add: groups8_step end_marker_def)
  finally show ?thesis
    by (simp add: binary_to_text_groups takeWhile_format o_def int2_format_08b)
qed

lemma takeWhile_no_marker: "m \<notin> set gs \<Longrightarrow> takeWhile (\<lambda>g. g \<noteq> m) gs = gs"
  by (induction gs) auto

lemma takeWhile_nonzero_id: "0 \<notin> set msg \<Longrightarrow> takeWhile (\<lambda>c. c \<noteq> (0::nat)) msg = msg"
  by (induction msg) auto

text \<open>
  Claim C2 (terminator semantics). For a sequence \<open>b\<close> of byte values (code points below
  256), decoding the serialization of \<open>b\<close> gives \<open>b\<close> back when no byte of \<open>b\<close> is
  \<open>0x00\<close>, and gives \<open>b\<close> cut before its first \<open>0x00\<close> byte when there is one.
\<close>

theorem C2_terminator_semantics:
  assumes "\<forall>c \<in> set b. c < 256"
  shows "(0 \<notin> set b \<longrightarrow> binary_to_text (message_to_binary b) = b) \<and>
         (0 \<in> set b \<longrightarrow> binary_to_text (message_to_binary b) = takeWhile (\<lambda>c. c \<noteq> 0) b)"
proof -
  have e: "binary_to_text (message_to_binary b) = takeWhile (\<lambda>c. c \<noteq> 0) b"
    using binary_to_text_message[OF assms, of "[]"] by simp
  show ?thesis unfolding e using takeWhile_nonzero_id[of b] by simp
qed

theorem C2_terminator_semantics_witness:
  "list_all (\<lambda>c. c < 256) [72, 105 :: nat] \<and> 0 \<notin> set [72, 105 :: nat] \<and>
   binary_to_text (message_to_binary [72, 105]) = [72, 105] \<and>
   list_all (\<lambda>c. c < 256) [72, 0, 105 :: nat] \<and> 0 \<in> set [72, 0, 105 :: nat] \<and>
   binary_to_text (message_to_binary [72, 0, 105]) = [72]"
  using C2_terminator_semantics[of "[72, 105]"] C2_terminator_semantics[of "[72, 0, 105]"]
  by simp

text \<open>
  Claim C5 (best-effort decode). For every bit string the decoder returns the values of
  the complete 8-bit groups, read left to right, that come before the first all-zero
  group; a trailing group of fewer than 8 bits changes nothing; and when no complete
  group is all-zero, every complete group is decoded.
\<close>

theorem C5_best_effort_decode:
  "binary_to_text bits = map int2 (takeWhile (\<lambda>g. g \<noteq> end_marker) (spec_groups8 bits)) \<and>
   binary_to_text (take (8 * (length bits div 8)) bits) = binary_to_text bits \<and>
   (end_marker \<notin> set (spec_groups8 bits) \<longrightarrow> binary_to_text bits = map int2 (spec_groups8 bits))"
proof -
  have "end_marker \<notin> set (spec_groups8 bits) \<longrightarrow>
               binary_to_text bits = map int2 (spec_groups8 bits)"
    by (simp add: binary_to_text_groups takeWhile_no_marker)
  then show ?thesis
    by (simp add: binary_to_text_groups groups8_take)
qed

theorem C5_best_effort_decode_witness:
  "binary_to_text ([False, True, False, False, False, False, False, True] @
                   [False, False, False, False, False, False, False, False] @
                   [False, True, False, False, False, False, True, False] @ [True, True, True])
     = [65] \<and>
   end_marker \<notin> set (spec_groups8 ([False, True, False, False, False, False, False, True] @
                                     [True, True, True])) \<and>
   binary_to_text ([False, True, False, False, False, False, False, True] @ [True, True, True])
     = [65]"
proof -
  let ?a = "[False, True, False, False, False, False, False, True]"
  let ?z = "[False, False, False, False, False, False, False, False]"
  let ?b = "[False, True, False, False, False, False, True, False]"
  have g1: "spec_groups8 (?a @ ?z @ ?b @ [True, True, True]) = [?a, ?z, ?b]"
    by (simp add: spec_groups8_def upt_conv_Cons)
  have g2: "spec_groups8 (?a @ [True, True, True]) = [?a]"
    by (simp add: spec_groups8_def)
  have i: "int2 ?a = 65" by (simp add: int2_def)
  have e: "end_marker = ?z" by (simp add: end_marker_def eval_nat_numeral)
  from C5_best_effort_decode[of "?a @ ?z @ ?b @ [True, True, True]"]
       C5_best_effort_decode[of "?a @ [True, True, True]"]
  show ?thesis unfolding g1 g2 by (simp add: i e)
qed

section \<open>Properties of the whitespace method\<close>

lemma isspace_SPACE_TAB: "py_isspace SPACE" "py_isspace TAB"
  by (simp_all add: py_isspace_def SPACE_def TAB_def)

lemma TAB_neq_SPACE: "TAB \<noteq> SPACE"
  by (simp add: SPACE_def TAB_def)

lemma plain_word_no_sep: "plain_word w \<Longrightarrow> c \<in> set w \<Longrightarrow> c \<noteq> SPACE \<and> c \<noteq> TAB"
  using isspace_SPACE_TAB by (auto simp: plain_word_def)

lemma split_loop_plain:
  "w \<in> set (split_loop s cur) \<Longrightarrow> \<forall>c \<in> set cur. \<not> py_isspace c \<Longrightarrow> plain_word w"
proof (induction s arbitrary: cur)
  case Nil
  then show ?case by (auto simp: plain_word_def split: if_splits)
next
  case (Cons c cs)
  show ?case
  proof (cases "py_isspace c")
    case True
    with Cons.prems have "w = cur \<and> cur \<noteq> [] \<or> w \<in> set (split_loop cs [])"
      by (auto split: if_splits)
    then show ?thesis using Cons.IH[of "[]"] Cons.prems(2) by (auto simp: plain_word_def)
  next
    case False
    with Cons.prems show ?thesis using Cons.IH[of "cur @ [c]"] by auto
  qed
qed

lemma py_split_plain: "w \<in> set (py_split s) \<Longrightarrow> plain_word w"
  using split_loop_plain[of w s "[]"] by (simp add: py_split_def)

lemma split_loop_Nil:
  "split_loop s cur = [] \<longleftrightarrow> cur = [] \<and> (\<forall>c \<in> set s. py_isspace c)"
  by (induction s arbitrary: cur) auto

lemma py_split_Nil: "py_split s = [] \<longleftrightarrow> (\<forall>c \<in> set s. py_isspace c)"
  by (simp add: py_split_def split_loop_Nil)

lemma extend_words_ok:
  assumes "cover_words \<noteq> []" "length cover_words \<le> length words"
  shows "\<exists>ws. extend_words cover_words words n = Inr ws \<and>
              length ws = max (length words) (Suc n) \<and>
              take (length words) ws = words \<and> set ws \<subseteq> set words"
  using assms
proof (induction cover_words words n rule: extend_words.induct)
  case (1 cover_words words n)
  show ?case
  proof (cases "int (length words) - 1 < int n")
    case False
    then show ?thesis by (simp add: extend_words.simps[of cover_words words n] max_def)
  next
    case True
    define k where "k = length words mod length cover_words"
    have kc: "k < length cover_words" using "1.prems"(1) by (simp add: k_def)
    then have kw: "k < length words" using "1.prems"(2) by simp
    have c0: "length cover_words \<noteq> 0" using "1.prems"(1) by simp
    have "\<exists>ws. extend_words cover_words (words @ [words ! k]) n = Inr ws \<and>
              length ws = max (length (words @ [words ! k])) (Suc n) \<and>
              take (length (words @ [words ! k])) ws = words @ [words ! k] \<and>
              set ws \<subseteq> set (words @ [words ! k])"
      using "1.IH"[OF True c0 k_def kw "1.prems"(1)] "1.prems"(2) by simp
    then obtain ws where ws: "extend_words cover_words (words @ [words ! k]) n = Inr ws"
      "length ws = max (Suc (length words)) (Suc n)"
      "take (Suc (length words)) ws = words @ [words ! k]"
      "set ws \<subseteq> set (words @ [words ! k])" by auto
    have e: "extend_words cover_words words n = Inr ws"
      using True c0 kw ws(1) by (simp add: extend_words.simps[of cover_words words n] k_def)
    have "take (length words) (take (Suc (length words)) ws) = words"
      unfolding ws(3) by simp
    then have t: "take (length words) ws = words" by (simp add: min_def)
    have s: "set ws \<subseteq> set words" using ws(4) kw by auto
    have l: "length ws = max (length words) (Suc n)" using ws(2) True by (simp add: max_def)
    show ?thesis using e t s l by simp
  qed
qed

lemma extend_words_ZeroDivisionError: "extend_words [] [] n = Inl ZeroDivisionError"
  by (simp add: extend_words.simps[of "[]" "[]" n])

lemma scan_parts_word:
  "\<forall>c \<in> set w. c \<noteq> SPACE \<and> c \<noteq> TAB \<Longrightarrow>
     scan_parts (w @ rest) parts cur = scan_parts rest parts (cur @ w)"
  by (induction w arbitrary: cur) simp_all

lemma fields_loop_word:
  "\<forall>c \<in> set w. c \<noteq> SPACE \<and> c \<noteq> TAB \<Longrightarrow>
     fields_loop (w @ rest) cur = fields_loop rest (cur @ w)"
  by (induction w arbitrary: cur) simp_all

lemma join_whitespace_from: "join_whitespace words bm = join_from words bm 0"
  by (simp add: join_whitespace_def join_from_def)

lemma join_from_end: "length words \<le> k \<Longrightarrow> join_from words bm k = []"
  by (simp add: join_from_def)

lemma join_from_last: "Suc k = length words \<Longrightarrow> join_from words bm k = words ! k"
proof -
  assume a: "Suc k = length words"
  then have "[k..<length words] = [k]" by (metis upt_rec lessI upt_eq_Nil_conv le_refl)
  then show ?thesis using a by (simp add: join_from_def)
qed

lemma join_from_step:
  "Suc k < length words \<Longrightarrow>
     join_from words bm k = words ! k @ separator bm k # join_from words bm (Suc k)"
proof -
  assume a: "Suc k < length words"
  then have "[k..<length words] = k # [Suc k..<length words]" by (simp add: upt_conv_Cons)
  then show ?thesis using a by (simp add: join_from_def)
qed

lemma separator_cases: "separator bm i = TAB \<or> separator bm i = SPACE"
  by (simp add: separator_def)

lemma fields_join_from:
  assumes "\<forall>w \<in> set words. plain_word w"
  shows "k < length words \<Longrightarrow> fields_loop (join_from words bm k) [] = drop k words"
proof (induction "length words - k" arbitrary: k)
  case 0
  then show ?case by simp
next
  case (Suc n)
  have pw: "\<forall>c \<in> set (words ! k). c \<noteq> SPACE \<and> c \<noteq> TAB"
    using assms Suc.prems plain_word_no_sep by (metis nth_mem)
  show ?case
  proof (cases "Suc k = length words")
    case True
    then have "drop k words = [words ! k]"
      by (metis Cons_nth_drop_Suc Suc.prems drop_all le_refl)
    then show ?thesis
      using fields_loop_word[OF pw, of "[]" "[]"] True by (simp add: join_from_last)
  next
    case False
    then have lt: "Suc k < length words" using Suc.prems by simp
    then have ih: "fields_loop (join_from words bm (Suc k)) [] = drop (Suc k) words"
      using Suc.hyps(1)[of "Suc k"] Suc.hyps(2) by simp
    have "fields_loop (join_from words bm k) []
            = fields_loop (separator bm k # join_from words bm (Suc k)) (words ! k)"
      using fields_loop_word[OF pw, of _ "[]"] by (simp add: join_from_step[OF lt])
    also have "\<dots> = words ! k # drop (Suc k) words"
      using separator_cases[of bm k] ih by auto
    finally show ?thesis using Suc.prems by (simp add: Cons_nth_drop_Suc)
  qed
qed

lemma split_space_tab_join:
  assumes "\<forall>w \<in> set words. plain_word w" "words \<noteq> []"
  shows "split_space_tab (join_whitespace words bm) = words"
  using fields_join_from[OF assms(1), of 0 bm] assms(2)
  by (simp add: split_space_tab_def join_whitespace_from)

lemma plain_word_not_sep: "plain_word w \<Longrightarrow> w \<noteq> [TAB] \<and> w \<noteq> [SPACE]"
  using isspace_SPACE_TAB by (auto simp: plain_word_def)

lemma parts_to_binary_append:
  "parts_to_binary (ps @ qs) = parts_to_binary ps @ parts_to_binary qs"
  by (simp add: parts_to_binary_def)

lemma parts_to_binary_scan_join:
  assumes "\<forall>w \<in> set words. plain_word w"
  shows "k < length words \<Longrightarrow>
     parts_to_binary (scan_parts (join_from words bm k) parts [])
       = parts_to_binary parts @ map (\<lambda>i. i < length bm \<and> bm ! i) [k..<length words - 1]"
proof (induction "length words - k" arbitrary: k parts)
  case 0
  then show ?case by simp
next
  case (Suc n)
  have wk: "plain_word (words ! k)" using assms Suc.prems by simp
  then have pw: "\<forall>c \<in> set (words ! k). c \<noteq> SPACE \<and> c \<noteq> TAB"
    using plain_word_no_sep by blast
  have ne: "words ! k \<noteq> []" using wk by (simp add: plain_word_def)
  have nb: "parts_to_binary [words ! k] = []"
    using plain_word_not_sep[OF wk] by (simp add: parts_to_binary_def)
  show ?case
  proof (cases "Suc k = length words")
    case True
    then have "[k..<length words - 1] = []" by simp
    then show ?thesis
      using scan_parts_word[OF pw, of "[]" parts "[]"] True ne nb
      by (simp add: join_from_last parts_to_binary_append)
  next
    case False
    then have lt: "Suc k < length words" using Suc.prems by simp
    have u: "[k..<length words - 1] = k # [Suc k..<length words - 1]"
      using lt by (simp add: upt_conv_Cons)
    have sb: "parts_to_binary [[separator bm k]] = [k < length bm \<and> bm ! k]"
      using TAB_neq_SPACE by (simp add: parts_to_binary_def separator_def)
    have "scan_parts (join_from words bm k) parts []
            = scan_parts (separator bm k # join_from words bm (Suc k)) parts (words ! k)"
      using scan_parts_word[OF pw, of _ parts "[]"] by (simp add: join_from_step[OF lt])
    also have "\<dots> = scan_parts (join_from words bm (Suc k))
                        ((parts @ [words ! k]) @ [[separator bm k]]) []"
      using separator_cases[of bm k] ne by auto
    finally have "parts_to_binary (scan_parts (join_from words bm k) parts [])
            = parts_to_binary ((parts @ [words ! k]) @ [[separator bm k]])
              @ map (\<lambda>i. i < length bm \<and> bm ! i) [Suc k..<length words - 1]"
      using Suc.hyps(1)[of "Suc k"] Suc.hyps(2) lt by simp
    moreover have "parts_to_binary [words ! k, [separator bm k]] = [k < length bm \<and> bm ! k]"
      using parts_to_binary_append[of "[words ! k]" "[[separator bm k]]"] nb sb by simp
    ultimately show ?thesis unfolding u by (simp add: parts_to_binary_append)
  qed
qed

lemma map_bits_upt:
  "length bm \<le> m \<Longrightarrow>
     map (\<lambda>i. i < length bm \<and> bm ! i) [0..<m] = bm @ replicate (m - length bm) False"
proof -
  assume a: "length bm \<le> m"
  then have "[0..<m] = [0..<length bm] @ [length bm..<m]"
    by (metis le_add_diff_inverse upt_add_eq_append zero_le)
  moreover have "map (\<lambda>i. i < length bm \<and> bm ! i) [0..<length bm] = bm"
    by (rule nth_equalityI) simp_all
  moreover have "map (\<lambda>i. i < length bm \<and> bm ! i) [length bm..<m]
                   = replicate (m - length bm) False"
    by (rule nth_equalityI) simp_all
  ultimately show ?thesis by simp
qed

lemma extract_whitespace_join:
  assumes "\<forall>w \<in> set words. plain_word w" "length bm < length words"
  shows "parts_to_binary (scan_parts (join_whitespace words bm) [] [])
           = bm @ replicate (length words - 1 - length bm) False"
proof -
  have "0 < length words" using assms(2) by linarith
  from parts_to_binary_scan_join[OF assms(1) this, of bm "[]"]
  have "parts_to_binary (scan_parts (join_whitespace words bm) [] [])
          = map (\<lambda>i. i < length bm \<and> bm ! i) [0..<length words - 1]"
    by (simp add: join_whitespace_from parts_to_binary_def)
  moreover have "length bm \<le> length words - 1" using assms(2) by simp
  ultimately show ?thesis by (simp only: map_bits_upt)
qed

lemma embed_whitespace_no_words:
  assumes "py_split cover = []"
  shows "embed_whitespace cover secret = Inl ZeroDivisionError"
  using assms by (simp add: embed_whitespace_def extend_words_ZeroDivisionError)

lemma embed_whitespace_words:
  assumes "py_split cover \<noteq> []"
  shows "\<exists>ws. embed_whitespace cover secret = Inr (join_whitespace ws (message_to_binary secret)) \<and>
              length (message_to_binary secret) < length ws \<and>
              length (py_split cover) \<le> length ws \<and>
              take (length (py_split cover)) ws = py_split cover \<and>
              set ws \<subseteq> set (py_split cover)"
proof -
  from extend_words_ok[OF assms le_refl, of "length (message_to_binary secret)"]
  obtain ws where ws:
    "extend_words (py_split cover) (py_split cover) (length (message_to_binary secret)) = Inr ws"
    "length ws = max (length (py_split cover)) (Suc (length (message_to_binary secret)))"
    "take (length (py_split cover)) ws = py_split cover"
    "set ws \<subseteq> set (py_split cover)"
    by blast
  have "embed_whitespace cover secret = Inr (join_whitespace ws (message_to_binary secret))"
    using ws(1) by (simp add: embed_whitespace_def)
  moreover have "length (message_to_binary secret) < length ws" using ws(2) by simp
  moreover have "length (py_split cover) \<le> length ws" using ws(2) by simp
  ultimately show ?thesis using ws(3,4) by blast
qed

lemma method_names_distinct:
  "py_str ''whitespace'' \<noteq> py_str ''synonym''"
  "py_str ''whitespace'' \<noteq> py_str ''binary''"
  "py_str ''synonym'' \<noteq> py_str ''binary''"
  by (simp_all add: py_str_def)

lemma embed_message_whitespace:
  "embed_message U cover secret (py_str ''whitespace'') = embed_whitespace cover secret"
  by (simp add: embed_message_def)

lemma extract_message_whitespace:
  "extract_message U stego (py_str ''whitespace'') = Inr (extract_whitespace stego)"
  by (simp add: extract_message_def)

text \<open>
  Claim C1 (whitespace round-trip). For every cover text with at least one word and every
  payload of byte values none of which is \<open>0x00\<close>, embedding with method
  \<open>"whitespace"\<close> returns a stego text, and extracting from it with method
  \<open>"whitespace"\<close> returns exactly the payload.
\<close>

theorem C1_whitespace_roundtrip:
  assumes "py_split cover \<noteq> []" and "\<forall>c \<in> set payload. c \<noteq> 0 \<and> c < 256"
  shows "\<exists>stego. embed_message U cover payload (py_str ''whitespace'') = Inr stego \<and>
                 extract_message U stego (py_str ''whitespace'') = Inr payload"
proof -
  let ?bm = "message_to_binary payload"
  from embed_whitespace_words[OF assms(1), of payload]
  obtain ws where ws: "embed_whitespace cover payload = Inr (join_whitespace ws ?bm)"
    "length ?bm < length ws" "set ws \<subseteq> set (py_split cover)"
    by blast
  have plain: "\<forall>w \<in> set ws. plain_word w" using ws(3) py_split_plain by blast
  have b: "\<forall>c \<in> set payload. c < 256" using assms(2) by simp
  have z: "0 \<notin> set payload" using assms(2) by auto
  have "extract_whitespace (join_whitespace ws ?bm)
          = binary_to_text (?bm @ replicate (length ws - 1 - length ?bm) False)"
    by (simp add: extract_whitespace_def whitespace_bits_def
                  extract_whitespace_join[OF plain ws(2)])
  also have "\<dots> = payload"
    by (simp only: binary_to_text_message[OF b] takeWhile_nonzero_id[OF z])
  finally show ?thesis
    using ws(1) by (simp add: embed_message_whitespace extract_message_whitespace)
qed

theorem C1_whitespace_roundtrip_witness:
  "py_split (py_str ''hello world'') \<noteq> [] \<and> list_all (\<lambda>c. c \<noteq> 0 \<and> c < 256) (py_str ''Hi'') \<and>
   (\<exists>stego. embed_message latin1 (py_str ''hello world'') (py_str ''Hi'') (py_str ''whitespace'') = Inr stego \<and>
            extract_message latin1 stego (py_str ''whitespace'') = Inr (py_str ''Hi''))"
proof -
  have a: "py_split (py_str ''hello world'') \<noteq> []"
    by (simp add: py_split_def py_str_def py_isspace_def)
  have b: "\<forall>c \<in> set (py_str ''Hi''). c \<noteq> 0 \<and> c < 256" by (simp add: py_str_def)
  from C1_whitespace_roundtrip[OF a b, where U = latin1] a b show ?thesis by (simp add: list_all_iff)
qed

text \<open>
  Claim C9 (whitespace embedding of a cover without words). For every secret message,
  embedding with method \<open>"whitespace"\<close> into a cover text that is empty or holds only
  whitespace returns no string: the word-extension loop takes the remainder by the
  number of words of the cover, which is zero, and raises \<open>ZeroDivisionError\<close>.
\<close>

theorem C9_whitespace_empty_cover:
  assumes "\<forall>c \<in> set cover. py_isspace c"
  shows "embed_message U cover secret (py_str ''whitespace'') = Inl ZeroDivisionError"
  using assms by (simp add: embed_message_whitespace embed_whitespace_no_words py_split_Nil)

theorem C9_whitespace_empty_cover_witness:
  "list_all py_isspace [SPACE, TAB, 10] \<and>
   embed_message latin1 [SPACE, TAB, 10] (py_str ''Hi'') (py_str ''whitespace'') = Inl ZeroDivisionError \<and>
   embed_message latin1 [] (py_str ''Hi'') (py_str ''whitespace'') = Inl ZeroDivisionError"
proof -
  have a: "\<forall>c \<in> set [SPACE, TAB, 10]. py_isspace c"
    by (simp add: py_isspace_def SPACE_def TAB_def)
  have b: "\<forall>c \<in> set ([] :: pystr). py_isspace c" by simp
  from C9_whitespace_empty_cover[OF a, where U = latin1]
       C9_whitespace_empty_cover[OF b, where U = latin1] a
  show ?thesis by (simp add: list_all_iff)
qed

text \<open>
  Claim C10 (whitespace embedding never alters word content). For every cover text with
  at least one word and every secret message, cutting the stego text at its space and tab
  characters gives a word sequence whose first \<open>len(cover.split())\<close> elements are
  \<open>cover.split()\<close>, in order, and whose later elements are each one of those words.
\<close>

theorem C10_whitespace_words_unchanged:
  assumes "py_split cover \<noteq> []"
  shows "\<exists>stego. embed_message U cover secret (py_str ''whitespace'') = Inr stego \<and>
           take (length (py_split cover)) (split_space_tab stego) = py_split cover \<and>
           set (drop (length (py_split cover)) (split_space_tab stego)) \<subseteq> set (py_split cover)"
proof -
  let ?bm = "message_to_binary secret"
  from embed_whitespace_words[OF assms, of secret]
  obtain ws where ws: "embed_whitespace cover secret = Inr (join_whitespace ws ?bm)"
    "length ?bm < length ws" "take (length (py_split cover)) ws = py_split cover"
    "set ws \<subseteq> set (py_split cover)"
    by blast
  have plain: "\<forall>w \<in> set ws. plain_word w" using ws(4) py_split_plain by blast
  have ne: "ws \<noteq> []" using ws(2) by auto
  have s: "split_space_tab (join_whitespace ws ?bm) = ws"
    by (rule split_space_tab_join[OF plain ne])
  have "set (drop (length (py_split cover)) ws) \<subseteq> set (py_split cover)"
    using ws(4) set_drop_subset by fastforce
  then show ?thesis using ws(1,3) s by (simp add: embed_message_whitespace)
qed

theorem C10_whitespace_words_unchanged_witness:
  "py_split (py_str ''hello world'') = [py_str ''hello'', py_str ''world''] \<and>
   (\<exists>stego. embed_message latin1 (py_str ''hello world'') (py_str ''Hi'') (py_str ''whitespace'') = Inr stego \<and>
      take 2 (split_space_tab stego) = [py_str ''hello'', py_str ''world''] \<and>
      set (drop 2 (split_space_tab stego)) \<subseteq> {py_str ''hello'', py_str ''world''})"
proof -
  have a: "py_split (py_str ''hello world'') = [py_str ''hello'', py_str ''world'']"
    by (simp add: py_split_def py_str_def py_isspace_def)
  then have b: "py_split (py_str ''hello world'') \<noteq> []" by simp
  from C10_whitespace_words_unchanged[OF b, where secret = "py_str ''Hi''" and U = latin1] show ?thesis
    unfolding a by (simp add: numeral_2_eq_2)
qed

lemma embed_whitespace_not_ValueError: "embed_whitespace cover secret \<noteq> Inl (ValueError e)"
proof (cases "py_split cover = []")
  case True
  then show ?thesis by (simp add: embed_whitespace_no_words)
next
  case False
  from embed_whitespace_words[OF False, of secret] show ?thesis by auto
qed

text \<open>
  Claim C7 (unsupported method). For a method string other than \<open>"whitespace"\<close>,
  \<open>"synonym"\<close> and \<open>"binary"\<close>, and for all text and message arguments, embedding
  and extraction both raise \<open>ValueError("Unsupported method: ...")\<close>; for the three
  method names neither of them raises a \<open>ValueError\<close>, whatever the arguments.
\<close>

theorem C7_unsupported_method:
  "(method \<notin> {py_str ''whitespace'', py_str ''synonym'', py_str ''binary''} \<longrightarrow>
      embed_message U cover secret method
        = Inl (ValueError (py_str ''Unsupported method: '' @ method)) \<and>
      extract_message U stego method
        = Inl (ValueError (py_str ''Unsupported method: '' @ method))) \<and>
   (method \<in> {py_str ''whitespace'', py_str ''synonym'', py_str ''binary''} \<longrightarrow>
      (\<forall>e. embed_message U cover secret method \<noteq> Inl (ValueError e)) \<and>
      (\<forall>e. extract_message U stego method \<noteq> Inl (ValueError e)))"
proof -
  have a: "method \<notin> {py_str ''whitespace'', py_str ''synonym'', py_str ''binary''} \<Longrightarrow>
      embed_message U cover secret method
        = Inl (ValueError (py_str ''Unsupported method: '' @ method)) \<and>
      extract_message U stego method
        = Inl (ValueError (py_str ''Unsupported method: '' @ method))"
    by (simp add: embed_message_def extract_message_def)
  have b: "method \<in> {py_str ''whitespace'', py_str ''synonym'', py_str ''binary''} \<Longrightarrow>
      (\<forall>e. embed_message U cover secret method \<noteq> Inl (ValueError e)) \<and>
      (\<forall>e. extract_message U stego method \<noteq> Inl (ValueError e))"
    using embed_whitespace_not_ValueError[of cover secret]
    by (auto simp add: embed_message_def extract_message_def)
  from a b show ?thesis by blast
qed

theorem C7_unsupported_method_witness:
  "py_str ''rot13'' \<notin> {py_str ''whitespace'', py_str ''synonym'', py_str ''binary''} \<and>
   embed_message latin1 (py_str ''some text'') (py_str ''Hi'') (py_str ''rot13'')
     = Inl (ValueError (py_str ''Unsupported method: rot13'')) \<and>
   extract_message latin1 (py_str ''some text'') (py_str ''rot13'')
     = Inl (ValueError (py_str ''Unsupported method: rot13'')) \<and>
   py_str ''binary'' \<in> {py_str ''whitespace'', py_str ''synonym'', py_str ''binary''} \<and>
   (\<forall>e. embed_message latin1 (py_str ''some text'') (py_str ''Hi'') (py_str ''binary'') \<noteq> Inl (ValueError e)) \<and>
   (\<forall>e. extract_message latin1 (py_str ''some text'') (py_str ''binary'') \<noteq> Inl (ValueError e))"
proof -
  have n: "py_str ''rot13'' \<notin> {py_str ''whitespace'', py_str ''synonym'', py_str ''binary''}"
    by (simp add: py_str_def)
  have m: "py_str ''Unsupported method: '' @ py_str ''rot13'' = py_str ''Unsupported method: rot13''"
    by (simp add: py_str_def)
  from C7_unsupported_method[of "py_str ''rot13''" latin1 "py_str ''some text''" "py_str ''Hi''"
           "py_str ''some text''"]
       C7_unsupported_method[of "py_str ''binary''" latin1 "py_str ''some text''" "py_str ''Hi''"
           "py_str ''some text''"]
       n
  show ?thesis unfolding m by simp
qed

section \<open>Extraction without a terminator\<close>

lemma groups8_Nil_iff: "spec_groups8 bits = [] \<longleftrightarrow> length bits < 8"
  by (auto simp: spec_groups8_def)

lemma no_terminator_decode:
  assumes "end_marker \<notin> set (spec_groups8 bits)"
  shows "binary_to_text bits = map int2 (spec_groups8 bits)"
    and "binary_to_text bits = [] \<longleftrightarrow> length bits < 8"
proof -
  show a: "binary_to_text bits = map int2 (spec_groups8 bits)"
    using assms by (simp add: binary_to_text_groups takeWhile_no_marker)
  show "binary_to_text bits = [] \<longleftrightarrow> length bits < 8"
    unfolding a by (simp add: groups8_Nil_iff)
qed

lemma one_group_128:
  "spec_groups8 [True, False, False, False, False, False, False, False]
     = [[True, False, False, False, False, False, False, False]]"
  "end_marker \<noteq> [True, False, False, False, False, False, False, False]"
  "int2 [True, False, False, False, False, False, False, False] = 128"
proof -
  show "spec_groups8 [True, False, False, False, False, False, False, False]
     = [[True, False, False, False, False, False, False, False]]"
    by (simp add: spec_groups8_def)
  show "end_marker \<noteq> [True, False, False, False, False, False, False, False]"
    by (simp add: end_marker_def eval_nat_numeral)
  show "int2 [True, False, False, False, False, False, False, False] = 128"
    by (simp add: int2_def)
qed

lemma whitespace_bits_example:
  "whitespace_bits (py_str ''a'' @ [TAB] @ py_str ''b c d e f g h i'')
     = [True, False, False, False, False, False, False, False]"
  by (simp add: whitespace_bits_def parts_to_binary_def py_str_def SPACE_def TAB_def)

lemma split_binary_example:
  "py_split (py_str ''Ab cd cd cd cd cd cd cd'')
     = [py_str ''Ab'', py_str ''cd'', py_str ''cd'', py_str ''cd'', py_str ''cd'', py_str ''cd'',
        py_str ''cd'', py_str ''cd'']"
  by (simp add: py_split_def py_str_def py_isspace_def)

lemma binary_word_bit_examples:
  "binary_word_bit latin1 (py_str ''Ab'') = True"
  "binary_word_bit latin1 (py_str ''cd'') = False"
  by (simp_all add: binary_word_bit_def latin1_def latin1_isalpha_def latin1_isupper_def py_str_def)

lemma binary_bits_example:
  "binary_bits latin1 (py_str ''Ab cd cd cd cd cd cd cd'')
     = [True, False, False, False, False, False, False, False]"
  unfolding binary_bits_def split_binary_example by (simp add: binary_word_bit_examples)

lemma split_synonym_example:
  "py_split (py_str ''this the the the the the the the'')
     = [py_str ''this'', py_str ''the'', py_str ''the'', py_str ''the'', py_str ''the'', py_str ''the'',
        py_str ''the'', py_str ''the'']"
  by (simp add: py_split_def py_str_def py_isspace_def)

lemma clean_examples:
  "clean_synonym_word latin1 (py_str ''this'') = py_str ''this''"
  "clean_synonym_word latin1 (py_str ''the'') = py_str ''the''"
  by (simp_all add: clean_synonym_word_def py_strip_def latin1_def latin1_lower_char_def
        punctuation_chars_def py_str_def)

lemma find_examples:
  "find_synonym_bit synonyms (py_str ''this'') = Some True"
  "find_synonym_bit synonyms (py_str ''the'') = Some False"
  by (simp_all add: synonyms_def py_str_def)

lemma synonym_word_bits_examples:
  "synonym_word_bits latin1 (py_str ''this'') = [True]"
  "synonym_word_bits latin1 (py_str ''the'') = [False]"
  by (simp_all add: synonym_word_bits_def clean_examples find_examples)

lemma synonym_bits_example:
  "synonym_bits latin1 (py_str ''this the the the the the the the'')
     = [True, False, False, False, False, False, False, False]"
  unfolding synonym_bits_def split_synonym_example by (simp add: synonym_word_bits_examples)

lemma extract_message_cases:
  "extract_message U stego (py_str ''whitespace'') = Inr (binary_to_text (whitespace_bits stego))"
  "extract_message U stego (py_str ''synonym'') = Inr (binary_to_text (synonym_bits U stego))"
  "extract_message U stego (py_str ''binary'') = Inr (binary_to_text (binary_bits U stego))"
  by (simp_all add: extract_message_def extract_whitespace_def extract_synonym_def
        extract_binary_def method_names_distinct[symmetric])

text \<open>
  Claim C6 as stated (no terminator found gives the empty string) fails: in the text
  \<open>a<TAB>b c d e f g h i\<close> the eight separators read \<open>10000000\<close>, no group is
  all-zero, and extraction with method \<open>"whitespace"\<close> returns the one character
  U+0080, whatever the character database.
\<close>

theorem C6_counterexample:
  "end_marker \<notin> set (spec_groups8 (whitespace_bits (py_str ''a'' @ [TAB] @ py_str ''b c d e f g h i''))) \<and>
   (\<forall>U. extract_message U (py_str ''a'' @ [TAB] @ py_str ''b c d e f g h i'') (py_str ''whitespace'')
          = Inr [128])"
  unfolding extract_message_cases whitespace_bits_example binary_to_text_groups one_group_128(1)
  using one_group_128(2) by (simp add: one_group_128(3))

text \<open>
  Claim C6, amended. For every input text, every character database and each of the
  three methods, if no complete 8-bit group of the bit string recovered from the text is
  all-zero, extraction raises nothing and returns the characters of all complete 8-bit
  groups of that bit string; the result is the empty string exactly when fewer than 8
  bits were recovered.
\<close>

theorem C6_no_terminator_best_effort:
  "(end_marker \<notin> set (spec_groups8 (whitespace_bits stego)) \<longrightarrow>
      extract_message U stego (py_str ''whitespace'')
        = Inr (map int2 (spec_groups8 (whitespace_bits stego))) \<and>
      (extract_message U stego (py_str ''whitespace'') = Inr [] \<longleftrightarrow>
         length (whitespace_bits stego) < 8)) \<and>
   (end_marker \<notin> set (spec_groups8 (synonym_bits U stego)) \<longrightarrow>
      extract_message U stego (py_str ''synonym'')
        = Inr (map int2 (spec_groups8 (synonym_bits U stego))) \<and>
      (extract_message U stego (py_str ''synonym'') = Inr [] \<longleftrightarrow>
         length (synonym_bits U stego) < 8)) \<and>
   (end_marker \<notin> set (spec_groups8 (binary_bits U stego)) \<longrightarrow>
      extract_message U stego (py_str ''binary'')
        = Inr (map int2 (spec_groups8 (binary_bits U stego))) \<and>
      (extract_message U stego (py_str ''binary'') = Inr [] \<longleftrightarrow>
         length (binary_bits U stego) < 8))"
  unfolding extract_message_cases using no_terminator_decode by simp

theorem C6_no_terminator_best_effort_witness:
  "end_marker \<notin> set (spec_groups8 (whitespace_bits (py_str ''a'' @ [TAB] @ py_str ''b c d e f g h i''))) \<and>
   extract_message latin1 (py_str ''a'' @ [TAB] @ py_str ''b c d e f g h i'') (py_str ''whitespace'')
     = Inr [128] \<and>
   end_marker \<notin> set (spec_groups8 (synonym_bits latin1 (py_str ''this the the the the the the the''))) \<and>
   extract_message latin1 (py_str ''this the the the the the the the'') (py_str ''synonym'')
     = Inr [128] \<and>
   end_marker \<notin> set (spec_groups8 (binary_bits latin1 (py_str ''Ab cd cd cd cd cd cd cd''))) \<and>
   extract_message latin1 (py_str ''Ab cd cd cd cd cd cd cd'') (py_str ''binary'') = Inr [128]"
proof -
  from C6_no_terminator_best_effort[of "py_str ''a'' @ [TAB] @ py_str ''b c d e f g h i''" latin1]
       C6_no_terminator_best_effort[of "py_str ''this the the the the the the the''" latin1]
       C6_no_terminator_best_effort[of "py_str ''Ab cd cd cd cd cd cd cd''" latin1]
  show ?thesis
    unfolding whitespace_bits_example synonym_bits_example binary_bits_example one_group_128(1)
    using one_group_128(2) by (simp add: one_group_128(3))
qed

end
